theory Spec2Isabelle
  imports Complex_Main "HOL-Library.Sublist"
begin

section \<open>JavaScript values\<close>

text \<open>
  The payload, the request body and the flattened values are untyped JavaScript values
  (\<^verbatim>\<open>unknown\<close> / \<^verbatim>\<open>any\<close> in the source). An object is the list of its own enumerable
  entries in the order \<^verbatim>\<open>Object.entries\<close> yields them. Strings are sequences of code
  units below 256; numbers are the rationals together with \<^verbatim>\<open>NaN\<close>, which is all the
  code can observe of a number (whether it is truthy).
\<close>

datatype jsvalue =
    JUndefined
  | JNull
  | JBool bool
  | JNum rat
  | JNaN
  | JStr string
  | JArr "jsvalue list"
  | JObj "(string \<times> jsvalue) list"

text \<open>JavaScript truthiness, as used by \<^verbatim>\<open>!x\<close>, \<^verbatim>\<open>x && y\<close>, \<^verbatim>\<open>x || y\<close> and \<^verbatim>\<open>if (x)\<close>.\<close>

fun truthy :: "jsvalue \<Rightarrow> bool" where
  "truthy JUndefined = False"
| "truthy JNull = False"
| "truthy (JBool b) = b"
| "truthy (JNum r) = (r \<noteq> 0)"
| "truthy JNaN = False"
| "truthy (JStr s) = (s \<noteq> [])"
| "truthy (JArr _) = True"
| "truthy (JObj _) = True"

text \<open>\<^verbatim>\<open>v && typeof v === 'object'\<close>: arrays and objects (\<^verbatim>\<open>null\<close> is falsy).\<close>

fun isObject :: "jsvalue \<Rightarrow> bool" where
  "isObject (JArr _) = True"
| "isObject (JObj _) = True"
| "isObject _ = False"

text \<open>\<^verbatim>\<open>a || b\<close> on values.\<close>

definition orElse :: "jsvalue \<Rightarrow> jsvalue \<Rightarrow> jsvalue" where
  "orElse a b = (if truthy a then a else b)"

datatype error = TypeError

text \<open>
  Reading a property \<^verbatim>\<open>body.key\<close> for one of the names \<^verbatim>\<open>media\<close>, \<^verbatim>\<open>mimetype\<close>,
  \<^verbatim>\<open>mediatype\<close>, \<^verbatim>\<open>fileName\<close> (none of them is an index or a built-in property):
  \<^verbatim>\<open>null\<close> and \<^verbatim>\<open>undefined\<close> raise a \<^verbatim>\<open>TypeError\<close>, an object yields the entry
  or \<^verbatim>\<open>undefined\<close>, every other value yields \<^verbatim>\<open>undefined\<close>.
\<close>

fun getProp :: "jsvalue \<Rightarrow> string \<Rightarrow> error + jsvalue" where
  "getProp JUndefined key = Inl TypeError"
| "getProp JNull key = Inl TypeError"
| "getProp (JObj es) key = Inr (case map_of es key of Some v \<Rightarrow> v | None \<Rightarrow> JUndefined)"
| "getProp _ key = Inr JUndefined"

definition bindE :: "error + 'a \<Rightarrow> ('a \<Rightarrow> error + 'b) \<Rightarrow> error + 'b" where
  "bindE m f = (case m of Inl e \<Rightarrow> Inl e | Inr v \<Rightarrow> f v)"

section \<open>Strings\<close>

text \<open>
  \<^verbatim>\<open>toLowerCase\<close> on code units below 256: the letters A to Z and the upper-case letters
  of Latin-1 (0xC0 to 0xDE without the multiplication sign 0xD7) move up by 32, which
  sets the bit of value 32; everything else stays.
\<close>

fun lowerChar :: "char \<Rightarrow> char" where
  "lowerChar (Char b0 b1 b2 b3 b4 b5 b6 b7) =
    (let n = (of_char (Char b0 b1 b2 b3 b4 b5 b6 b7) :: nat)
     in if (65 \<le> n \<and> n \<le> 90) \<or> (192 \<le> n \<and> n \<le> 222 \<and> n \<noteq> 215)
        then Char b0 b1 b2 b3 b4 True b6 b7 else Char b0 b1 b2 b3 b4 b5 b6 b7)"

definition toLowerCase :: "string \<Rightarrow> string" where
  "toLowerCase s = map lowerChar s"

text \<open>\<^verbatim>\<open>String.prototype.includes\<close>: the substring test.\<close>

fun includesStr :: "string \<Rightarrow> string \<Rightarrow> bool" where
  "includesStr [] sub = (sub = [])"
| "includesStr (c # cs) sub = (prefix sub (c # cs) \<or> includesStr cs sub)"

text \<open>\<^verbatim>\<open>String.prototype.startsWith\<close>.\<close>

definition startsWith :: "string \<Rightarrow> string \<Rightarrow> bool" where
  "startsWith s p = prefix p s"

text \<open>\<^verbatim>\<open>s.split(sep)\<close> for a separator of one character; the result is never empty.\<close>

fun splitStr :: "string \<Rightarrow> char \<Rightarrow> string list" where
  "splitStr [] sep = [[]]"
| "splitStr (c # cs) sep =
    (if c = sep then [] # splitStr cs sep
     else (case splitStr cs sep of [] \<Rightarrow> [[c]] | w # ws \<Rightarrow> (c # w) # ws))"

text \<open>The decimal digits of an array index, as a template literal prints it.\<close>

fun showNat :: "nat \<Rightarrow> string" where
  "showNat n =
    (if n < 10 then [''0123456789'' ! n]
     else showNat (n div 10) @ [''0123456789'' ! (n mod 10)])"

declare showNat.simps [simp del]

section \<open>The flattener\<close>

text \<open>\<^verbatim>\<open>Object.entries\<close>: an array has its indices as keys.\<close>

fun entries :: "jsvalue \<Rightarrow> (string \<times> jsvalue) list" where
  "entries (JObj es) = es"
| "entries (JArr xs) = zip (map showNat [0..<length xs]) xs"
| "entries _ = []"

record accumulator =
  fieldNames :: "string list"
  "values" :: "jsvalue list"

text \<open>The two \<^verbatim>\<open>push\<close> calls that always come together (lines 121-122 and 126-127).\<close>

definition push :: "string \<Rightarrow> jsvalue \<Rightarrow> accumulator \<Rightarrow> accumulator" where
  "push path v acc = acc\<lparr>fieldNames := fieldNames acc @ [path], values := values acc @ [v]\<rparr>"

lemma entries_size: "(k, v) \<in> set (entries p) \<Longrightarrow> size v < size p"
proof (cases p)
  case (JArr xs)
  assume "(k, v) \<in> set (entries p)"
  then have "v \<in> set xs" using JArr by (auto dest: set_zip_rightD)
  then have "size v \<le> size_list size xs" by (simp add: size_list_estimation')
  then show ?thesis using JArr by simp
next
  case (JObj es)
  assume "(k, v) \<in> set (entries p)"
  then have "(k, v) \<in> set es" using JObj by simp
  then have "size_prod (\<lambda>_. 0) size (k, v) \<le> size_list (size_prod (\<lambda>_. 0) size) es"
    by (rule size_list_estimation') simp
  then show ?thesis using JObj by simp
qed simp_all

lemma item_size: "item \<in> set items \<Longrightarrow> size item < Suc (size_list size items)"
  by (induction items) auto

text \<open>
  \<^verbatim>\<open>collectFieldArrays\<close> (lines 110-138). The mutated accumulator is threaded through
  both \<^verbatim>\<open>forEach\<close> loops, which are folds over the entries and over the indexed items.
\<close>

function collectFieldArrays :: "jsvalue \<Rightarrow> string \<Rightarrow> accumulator \<Rightarrow> accumulator" where
  "collectFieldArrays payload pfx accumulator =
    (if \<not> isObject payload then accumulator
     else fold (\<lambda>(key, value) acc.
        let path = (if pfx \<noteq> [] then pfx @ ''.'' @ key else key);
            acc1 = push path value acc
        in (case value of
              JArr items \<Rightarrow>
                fold (\<lambda>(item, index) acc2.
                   let acc3 = push (path @ ''['' @ showNat index @ '']'') item acc2
                   in if isObject item
                      then collectFieldArrays item (path @ ''['' @ showNat index @ '']'') acc3
                      else acc3)
                  (zip items [0..<length items]) acc1
            | JObj _ \<Rightarrow> collectFieldArrays value path acc1
            | _ \<Rightarrow> acc1))
       (entries payload) accumulator)"
  by pat_completeness auto
termination
proof (relation "measure (\<lambda>(p, _, _). size p)", goal_cases)
  case 1
  show ?case by simp
next
  case (2 payload pfx accumulator x key v acc path acc1 items e item index acc2 acc3)
  have "(key, JArr items) \<in> set (entries payload)"
    using 2 by metis
  then have outer: "size (JArr items) < size payload"
    by (rule entries_size)
  have "item \<in> set items"
    using 2 by (metis set_zip_leftD)
  then have "size item < size (JArr items)"
    using item_size by simp
  with outer show ?case by simp
next
  case (3 payload pfx accumulator x key v acc path acc1 es)
  have "(key, v) \<in> set (entries payload)"
    using 3 by metis
  then have "size v < size payload"
    by (rule entries_size)
  then show ?case by simp
qed

declare collectFieldArrays.simps [simp del]

section \<open>The type detector\<close>

datatype MessageKind =
    Sticker | Reaction | Template | Buttons | ListKind | Location | Contact
  | Poll | Status | Ptv | Audio | Media | Text | Unknown

record MessageAnalysis = accumulator +
  type :: MessageKind

definition normaliseField :: "string \<Rightarrow> string" where
  "normaliseField field = toLowerCase field"

text \<open>
  \<^verbatim>\<open>messageTypeDetectors\<close> (lines 34-88): the table of field-name rules, in order.
  \<^verbatim>\<open>fields.some(p)\<close> is \<open>list_ex p fields\<close>; \<^verbatim>\<open>[a, b, c].includes(x)\<close> is membership in the list.
\<close>

definition messageTypeDetectors ::
  "(MessageKind \<times> (string list \<Rightarrow> jsvalue list \<Rightarrow> bool)) list" where
  "messageTypeDetectors =
    [(Sticker, \<lambda>fields _. list_ex (\<lambda>f. includesStr (normaliseField f) ''sticker'') fields),
     (Reaction, \<lambda>fields _. list_ex (\<lambda>f. includesStr (normaliseField f) ''reaction'') fields),
     (Template, \<lambda>fields _.
        list_ex (\<lambda>f. normaliseField f \<in> set [''template'', ''components'', ''language''])
          fields),
     (Buttons, \<lambda>fields _. list_ex (\<lambda>f. includesStr (normaliseField f) ''buttons'') fields),
     (ListKind, \<lambda>fields _.
        list_ex (\<lambda>f. includesStr (normaliseField f) ''sections''
                    \<or> includesStr (normaliseField f) ''buttontext'') fields),
     (Location, \<lambda>fields _.
        list_ex (\<lambda>f. includesStr (normaliseField f) ''latitude'') fields
        \<and> list_ex (\<lambda>f. includesStr (normaliseField f) ''longitude'') fields),
     (Contact, \<lambda>fields _.
        list_ex (\<lambda>f. includesStr (normaliseField f) ''contact'') fields
        \<or> list_ex (\<lambda>f. includesStr (normaliseField f) ''wuid'') fields),
     (Poll, \<lambda>fields _. list_ex (\<lambda>f. includesStr (normaliseField f) ''selectablecount'') fields),
     (Status, \<lambda>fields _.
        list_ex (\<lambda>f. normaliseField f = ''statusjidlist'') fields
        \<or> list_ex (\<lambda>f. normaliseField f = ''allcontacts'') fields),
     (Ptv, \<lambda>fields _. list_ex (\<lambda>f. includesStr (normaliseField f) ''video'') fields),
     (Audio, \<lambda>fields _. list_ex (\<lambda>f. includesStr (normaliseField f) ''audio'') fields),
     (Media, \<lambda>fields _.
        list_ex (\<lambda>f. normaliseField f \<in> set [''media'', ''mediatype'', ''mimetype''])
          fields),
     (Text, \<lambda>fields _. list_ex (\<lambda>f. normaliseField f = ''text'') fields)]"

text \<open>\<^verbatim>\<open>values.filter((value) => typeof value === 'string')\<close> (lines 91 and 166).\<close>

fun filterStrings :: "jsvalue list \<Rightarrow> string list" where
  "filterStrings [] = []"
| "filterStrings (JStr s # vs) = s # filterStrings vs"
| "filterStrings (_ # vs) = filterStrings vs"

text \<open>\<^verbatim>\<open>detectByValues\<close> (lines 90-108); \<^verbatim>\<open>undefined\<close> is \<open>None\<close>.\<close>

definition detectByValues :: "jsvalue list \<Rightarrow> MessageKind option" where
  "detectByValues vs =
    (let stringValues = filterStrings vs in
     if list_ex (\<lambda>value. includesStr (toLowerCase value) ''sticker'') stringValues then Some Sticker
     else if list_ex (\<lambda>value. includesStr (toLowerCase value) ''reaction'') stringValues then Some Reaction
     else if list_ex (\<lambda>value. includesStr (toLowerCase value) ''template'') stringValues then Some Template
     else if list_ex (\<lambda>value. includesStr (toLowerCase value) ''button'') stringValues then Some Buttons
     else if list_ex (\<lambda>value. includesStr (toLowerCase value) ''section'') stringValues then Some ListKind
     else if list_ex (\<lambda>value. includesStr (toLowerCase value) ''latitude'') stringValues then Some Location
     else if list_ex (\<lambda>value. includesStr (toLowerCase value) ''contact'') stringValues then Some Contact
     else if list_ex (\<lambda>value. includesStr (toLowerCase value) ''selectablecount'') stringValues then Some Poll
     else if list_ex (\<lambda>value. includesStr (toLowerCase value) ''status'') stringValues then Some Status
     else if list_ex (\<lambda>value. includesStr (toLowerCase value) ''video'') stringValues then Some Ptv
     else if list_ex (\<lambda>value. includesStr (toLowerCase value) ''audio'') stringValues then Some Audio
     else if list_ex (\<lambda>value. includesStr (toLowerCase value) ''media'') stringValues then Some Media
     else if list_ex (\<lambda>value. includesStr (toLowerCase value) ''text'') stringValues then Some Text
     else None)"

text \<open>
  Line 143: \<^verbatim>\<open>messageTypeDetectors.find(({ match }) => match(fieldNames, values))?.type\<close>.
\<close>

definition matchedByField :: "string list \<Rightarrow> jsvalue list \<Rightarrow> MessageKind option" where
  "matchedByField names vs =
    map_option fst (List.find (\<lambda>(t, match). match names vs) messageTypeDetectors)"

text \<open>
  \<^verbatim>\<open>analyzeMessagePayload\<close> (lines 140-151). Every kind is a non-empty string, hence
  truthy, so \<^verbatim>\<open>x ? x : y\<close> and \<^verbatim>\<open>x || y\<close> on kinds are case distinctions on \<open>option\<close>.
\<close>

definition analyzeMessagePayload :: "jsvalue \<Rightarrow> MessageAnalysis" where
  "analyzeMessagePayload payload =
    (let acc = collectFieldArrays payload [] \<lparr>fieldNames = [], values = []\<rparr>;
         byField = matchedByField (fieldNames acc) (values acc);
         byValue = (case byField of Some k \<Rightarrow> Some k | None \<Rightarrow> detectByValues (values acc))
     in \<lparr>fieldNames = fieldNames acc, values = values acc,
         type = (case byValue of Some k \<Rightarrow> k
                 | None \<Rightarrow> (case byField of Some k \<Rightarrow> k | None \<Rightarrow> Unknown))\<rparr>)"

section \<open>The media metadata inferer\<close>

definition LONG_STRING_THRESHOLD :: nat where
  "LONG_STRING_THRESHOLD = 200"

definition VIDEO_SIZE_THRESHOLD :: nat where
  "VIDEO_SIZE_THRESHOLD = 4000000"

definition AUDIO_SIZE_THRESHOLD :: nat where
  "AUDIO_SIZE_THRESHOLD = 1000000"

text \<open>
  The library functions the inferer calls, with the options the source fixes
  (\<^verbatim>\<open>require_tld: false\<close>, \<^verbatim>\<open>allowMime: true\<close>). They are parameters of the model.
  \<^verbatim>\<open>mimeTypes.lookup\<close> and \<^verbatim>\<open>mimeTypes.extension\<close> return a string or \<^verbatim>\<open>false\<close>
  (\<open>None\<close>).
\<close>

record collaborators =
  isURL :: "string \<Rightarrow> bool"
  isBase64 :: "string \<Rightarrow> bool"
  mimeTypes_lookup :: "string \<Rightarrow> string option"
  mimeTypes_extension :: "string \<Rightarrow> string option"

text \<open>
  The partial metadata record: \<open>None\<close> is a property that was never assigned. A property
  holds a JavaScript value, since the body's own value is passed through.
\<close>

record metadata =
  mediatype :: "jsvalue option"
  mimetype :: "jsvalue option"
  fileName :: "jsvalue option"
  media :: "jsvalue option"

definition emptyMetadata :: metadata where
  "emptyMetadata = \<lparr>mediatype = None, mimetype = None, fileName = None, media = None\<rparr>"

text \<open>\<^verbatim>\<open>x || undefined\<close> and \<^verbatim>\<open>x || ''\<close> on a string-or-false.\<close>

definition orUndefined :: "string option \<Rightarrow> string option" where
  "orUndefined x = (case x of Some s \<Rightarrow> if s \<noteq> [] then Some s else None | None \<Rightarrow> None)"

definition orEmpty :: "string option \<Rightarrow> string" where
  "orEmpty x = (case x of Some s \<Rightarrow> s | None \<Rightarrow> [])"

text \<open>\<^verbatim>\<open>inferMediaTypeFromMime\<close> (lines 153-159).\<close>

definition inferMediaTypeFromMime :: "string option \<Rightarrow> string option" where
  "inferMediaTypeFromMime mt =
    (case orUndefined mt of
       None \<Rightarrow> None
     | Some m \<Rightarrow>
         if startsWith m ''image/'' then Some ''image''
         else if startsWith m ''audio/'' then Some ''audio''
         else if startsWith m ''video/'' then Some ''video''
         else Some ''document'')"

text \<open>\<^verbatim>\<open>x === undefined ? undefined : x\<close> as a value.\<close>

definition strOrUndefined :: "string option \<Rightarrow> jsvalue" where
  "strOrUndefined x = (case x of Some s \<Rightarrow> JStr s | None \<Rightarrow> JUndefined)"

text \<open>The URL branch (lines 170-179), entered with a truthy \<^verbatim>\<open>urlCandidate\<close>.\<close>

definition inferFromUrl :: "collaborators \<Rightarrow> jsvalue \<Rightarrow> string \<Rightarrow> metadata \<Rightarrow> error + metadata" where
  "inferFromUrl C body urlCandidate md0 =
    bindE (getProp body ''media'') (\<lambda>bodyMedia.
      let md1 = md0\<lparr>media := Some (orElse bodyMedia (JStr urlCandidate))\<rparr>;
          mimetype' = orUndefined (mimeTypes_lookup C urlCandidate)
      in bindE (getProp body ''mimetype'') (\<lambda>bodyMimetype.
        let md2 = md1\<lparr>mimetype := Some (orElse bodyMimetype (strOrUndefined mimetype'))\<rparr>
        in bindE (getProp body ''mediatype'') (\<lambda>bodyMediatype.
          let md3 = md2\<lparr>mediatype := Some (orElse bodyMediatype
                      (JStr (case inferMediaTypeFromMime (orUndefined mimetype') of
                               Some t \<Rightarrow> t | None \<Rightarrow> ''document'')))\<rparr>;
              extension = (case orUndefined (mimeTypes_extension C (orEmpty mimetype')) of
                             Some e \<Rightarrow> e
                           | None \<Rightarrow> last (splitStr urlCandidate CHR ''.''))
          in bindE (getProp body ''fileName'') (\<lambda>bodyFileName.
            if \<not> truthy bodyFileName \<and> extension \<noteq> []
            then Inr (md3\<lparr>fileName := Some (JStr (''media.'' @ extension))\<rparr>)
            else Inr md3))))"

text \<open>
  The three assignments every classification branch of the base64 branch makes
  (lines 190-192, 194-196, 198-200, 202-204, 206-208), with that branch's defaults.
\<close>

definition assignDefaults ::
  "jsvalue \<Rightarrow> string \<Rightarrow> string \<Rightarrow> string \<Rightarrow> metadata \<Rightarrow> error + metadata" where
  "assignDefaults body kind mime name md =
    bindE (getProp body ''mediatype'') (\<lambda>bodyMediatype.
      bindE (getProp body ''mimetype'') (\<lambda>bodyMimetype.
        bindE (getProp body ''fileName'') (\<lambda>bodyFileName.
          Inr (md\<lparr>mediatype := Some (orElse bodyMediatype (JStr kind)),
                  mimetype := Some (orElse bodyMimetype (JStr mime)),
                  fileName := Some (orElse bodyFileName (JStr name))\<rparr>))))"

text \<open>The base64 branch (lines 186-209), entered with a truthy \<^verbatim>\<open>base64Candidate\<close>.\<close>

definition inferFromBase64 :: "jsvalue \<Rightarrow> string \<Rightarrow> metadata \<Rightarrow> error + metadata" where
  "inferFromBase64 body base64Candidate md0 =
    bindE (getProp body ''media'') (\<lambda>bodyMedia.
      let md1 = md0\<lparr>media := Some (orElse bodyMedia (JStr base64Candidate))\<rparr>;
          lowered = toLowerCase base64Candidate
      in if includesStr lowered ''audio/ogg'' \<or> includesStr lowered ''.ogg''
         then assignDefaults body ''audio'' ''audio/ogg'' ''audio.ogg'' md1
         else if includesStr lowered ''image/jpeg'' \<or> includesStr lowered ''.jpg''
                 \<or> includesStr lowered ''jpeg''
         then assignDefaults body ''image'' ''image/jpeg'' ''image.jpg'' md1
         else if length base64Candidate > VIDEO_SIZE_THRESHOLD
         then assignDefaults body ''video'' ''video/mp4'' ''video.mp4'' md1
         else if length base64Candidate > AUDIO_SIZE_THRESHOLD
         then assignDefaults body ''audio'' ''audio/mpeg'' ''audio.mp3'' md1
         else assignDefaults body ''image'' ''image/png'' ''image.png'' md1)"

text \<open>Lines 168 and 182-184: the two candidates, \<open>None\<close> when \<^verbatim>\<open>find\<close> yields \<^verbatim>\<open>undefined\<close>.\<close>

definition urlCandidate :: "collaborators \<Rightarrow> MessageAnalysis \<Rightarrow> string option" where
  "urlCandidate C analysis = List.find (isURL C) (filterStrings (values analysis))"

definition base64Candidate :: "collaborators \<Rightarrow> MessageAnalysis \<Rightarrow> string option" where
  "base64Candidate C analysis =
    List.find (\<lambda>value. length value > LONG_STRING_THRESHOLD \<and> isBase64 C value)
      (filterStrings (values analysis))"

text \<open>
  \<^verbatim>\<open>inferMediaMetadata\<close> (lines 161-213). \<^verbatim>\<open>if (urlCandidate)\<close> and
  \<^verbatim>\<open>if (base64Candidate)\<close> test truthiness: an empty string does not enter the branch.
\<close>

definition inferMediaMetadata ::
  "collaborators \<Rightarrow> jsvalue \<Rightarrow> MessageAnalysis \<Rightarrow> error + metadata" where
  "inferMediaMetadata C body analysis =
    (let md = emptyMetadata;
         afterUrl =
           (case base64Candidate C analysis of
              Some b \<Rightarrow> if b \<noteq> [] then inferFromBase64 body b md else Inr md
            | None \<Rightarrow> Inr md)
     in case urlCandidate C analysis of
          Some u \<Rightarrow> if u \<noteq> [] then inferFromUrl C body u md else afterUrl
        | None \<Rightarrow> afterUrl)"

text \<open>
  Which branch a call takes: the URL branch with the first string that passes the URL
  test, when that string is truthy; else the base64 branch with the first long string
  that passes the base64 test.
\<close>

definition urlBranchFires :: "collaborators \<Rightarrow> MessageAnalysis \<Rightarrow> string \<Rightarrow> bool" where
  "urlBranchFires C analysis u = (urlCandidate C analysis = Some u \<and> u \<noteq> [])"

definition base64BranchFires :: "collaborators \<Rightarrow> MessageAnalysis \<Rightarrow> string \<Rightarrow> bool" where
  "base64BranchFires C analysis b =
    ((case urlCandidate C analysis of Some u \<Rightarrow> u = [] | None \<Rightarrow> True)
     \<and> base64Candidate C analysis = Some b \<and> b \<noteq> [])"

text \<open>
  The extension the URL branch computes on line 174: the registry's extension for the
  looked-up type, else what follows the last dot of the URL.
\<close>

definition urlExtension :: "collaborators \<Rightarrow> string \<Rightarrow> string" where
  "urlExtension C u =
    (case orUndefined (mimeTypes_extension C (orEmpty (orUndefined (mimeTypes_lookup C u)))) of
       Some e \<Rightarrow> e
     | None \<Rightarrow> last (splitStr u CHR ''.''))"

text \<open>
  The classification rules of the base64 branch (the conditions of lines 189, 193, 197 and
  201) read as a table: the default media type, MIME type and file name of the first rule
  that applies. \<open>inferFromBase64_result\<close> below proves that the branch assigns these.
\<close>

definition base64Defaults :: "string \<Rightarrow> string \<times> string \<times> string" where
  "base64Defaults b =
    (let lowered = toLowerCase b
     in if includesStr lowered ''audio/ogg'' \<or> includesStr lowered ''.ogg''
        then (''audio'', ''audio/ogg'', ''audio.ogg'')
        else if includesStr lowered ''image/jpeg'' \<or> includesStr lowered ''.jpg''
                \<or> includesStr lowered ''jpeg''
        then (''image'', ''image/jpeg'', ''image.jpg'')
        else if length b > VIDEO_SIZE_THRESHOLD
        then (''video'', ''video/mp4'', ''video.mp4'')
        else if length b > AUDIO_SIZE_THRESHOLD
        then (''audio'', ''audio/mpeg'', ''audio.mp3'')
        else (''image'', ''image/png'', ''image.png''))"

text \<open>
  The specification's wording of the fallback, for comparison: the trailing path segment
  of a URL, which is what follows its last slash.
\<close>

definition trailingPathSegment :: "string \<Rightarrow> string" where
  "trailingPathSegment u = last (splitStr u CHR ''/'')"

text \<open>A run of \<open>n\<close> letters A: a base64 text without any marker.\<close>

definition runOfAs :: "nat \<Rightarrow> string" where
  "runOfAs n = replicate n CHR ''A''"

text \<open>
  A string of 150 characters of the base64 alphabet that reads as a host name followed by
  a path.
\<close>

definition slashRun :: string where
  "slashRun = ''AAAA/'' @ runOfAs 145"

text \<open>
  A finite stand-in for the libraries, used at concrete inputs only. Its tables hold the
  answers of \<^verbatim>\<open>class-validator\<close> and \<^verbatim>\<open>mime-types\<close> on the strings the examples below hand
  to them, and nothing is claimed about the libraries elsewhere. The URL test (no
  top-level domain required) accepts the two \<^verbatim>\<open>http\<close> URLs and \<open>slashRun\<close>, whose host is
  \<^verbatim>\<open>AAAA\<close>; it rejects a run of more than 63 letters A, which is no host label. The base64
  test accepts a non-empty run of the letter A whose length is a multiple of four, and
  rejects \<open>slashRun\<close>, of length 150. \<^verbatim>\<open>http://example.com/a.png\<close> has the type
  \<^verbatim>\<open>image/png\<close>, whose extension is \<^verbatim>\<open>png\<close>; the other two URLs end in no extension and
  have no type, and the empty type has no extension.
\<close>

definition stubCollaborators :: collaborators where
  "stubCollaborators =
    \<lparr>isURL = (\<lambda>s. s = ''http://example.com/a.png'' \<or> s = ''http://example.com/download''
                    \<or> s = slashRun),
     isBase64 = (\<lambda>s. s \<noteq> [] \<and> set s = {CHR ''A''} \<and> 4 dvd length s),
     mimeTypes_lookup = (\<lambda>s. if s = ''http://example.com/a.png'' then Some ''image/png'' else None),
     mimeTypes_extension = (\<lambda>m. if m = ''image/png'' then Some ''png'' else None)\<rparr>"

section \<open>Facts about the string operations\<close>

lemma lowerChar_code_unit:
  "lowerChar c =
    (let n = (of_char c :: nat)
     in if (65 \<le> n \<and> n \<le> 90) \<or> (192 \<le> n \<and> n \<le> 222 \<and> n \<noteq> 215)
        then char_of (n + 32) else c)"
proof (cases c)
  case (Char b0 b1 b2 b3 b4 b5 b6 b7)
  show ?thesis
    unfolding Char
    by (cases b0; cases b1; cases b2; cases b3; cases b4; cases b5; cases b6; cases b7)
       (simp_all add: char_of_def bit_iff_odd)
qed

lemma includesStr_iff: "includesStr s sub \<longleftrightarrow> (\<exists>a b. s = a @ sub @ b)"
proof (induction s)
  case Nil
  show ?case by auto
next
  case (Cons c cs)
  show ?case
  proof
    assume "includesStr (c # cs) sub"
    then consider "prefix sub (c # cs)" | "includesStr cs sub" by auto
    then show "\<exists>a b. c # cs = a @ sub @ b"
    proof cases
      case 1
      then obtain b where "c # cs = sub @ b" by (auto simp: prefix_def)
      then have "c # cs = [] @ sub @ b" by simp
      then show ?thesis by blast
    next
      case 2
      then obtain a b where "cs = a @ sub @ b" using Cons.IH by blast
      then have "c # cs = (c # a) @ sub @ b" by simp
      then show ?thesis by blast
    qed
  next
    assume "\<exists>a b. c # cs = a @ sub @ b"
    then obtain a b where ab: "c # cs = a @ sub @ b" by blast
    show "includesStr (c # cs) sub"
    proof (cases a)
      case Nil
      then have "prefix sub (c # cs)" using ab by (simp add: prefix_def)
      then show ?thesis by simp
    next
      case (Cons x a')
      then have "cs = a' @ sub @ b" using ab by simp
      then have "includesStr cs sub" using Cons.IH by blast
      then show ?thesis by simp
    qed
  qed
qed

lemma splitStr_nonempty: "splitStr s sep \<noteq> []"
  by (induction s) (auto split: list.splits)

section \<open>Facts about the flattener\<close>

lemma fold_invariant:
  assumes "\<And>x acc. x \<in> set xs \<Longrightarrow> P acc \<Longrightarrow> P (f x acc)" and "P acc"
  shows "P (fold f xs acc)"
  using assms by (induction xs arbitrary: acc) auto

text \<open>
  Whatever both pushes preserve, the whole traversal preserves: the accumulator is only
  ever changed by \<open>push\<close>.
\<close>

lemma collectFieldArrays_invariant:
  assumes pushP: "\<And>path v acc. P acc \<Longrightarrow> P (push path v acc)"
  shows "P acc \<Longrightarrow> P (collectFieldArrays p pfx acc)"
proof (induction p pfx acc rule: collectFieldArrays.induct)
  case (1 payload pfx accumulator)
  show ?case
  proof (cases "isObject payload")
    case False
    then show ?thesis using "1.prems" by (simp add: collectFieldArrays.simps)
  next
    case True
    have nn: "\<not> \<not> isObject payload" using True by simp
    have stepArr: "P (collectFieldArrays item
          ((if pfx \<noteq> [] then pfx @ ''.'' @ key else key) @ ''['' @ showNat index @ '']'')
          (push ((if pfx \<noteq> [] then pfx @ ''.'' @ key else key) @ ''['' @ showNat index @ '']'')
             item acc2))"
      if mem: "(key, JArr items) \<in> set (entries payload)"
        and mem2: "(item, index) \<in> set (zip items [0..<length items])"
        and obj: "isObject item" and par: "P acc2"
      for key items item index acc2
      by (rule "1.IH"(1) [OF nn mem refl refl refl refl mem2 refl refl obj])
         (rule pushP [OF par])
    have stepObj: "P (collectFieldArrays (JObj es)
          (if pfx \<noteq> [] then pfx @ ''.'' @ key else key)
          (push (if pfx \<noteq> [] then pfx @ ''.'' @ key else key) (JObj es) acc2))"
      if mem: "(key, JObj es) \<in> set (entries payload)" and par: "P acc2"
      for key es acc2
      by (rule "1.IH"(2) [OF nn mem refl refl refl refl])
         (rule pushP [OF par])
    show ?thesis
      apply (subst collectFieldArrays.simps)
      apply (simp only: True not_True_eq_False if_False)
      apply (rule fold_invariant [where P = P])
       defer
       apply (rule "1.prems")
      subgoal for x acc
        apply (cases x)
        subgoal for key v
          apply (cases v; simp only: prod.case Let_def jsvalue.case)
                 apply (erule pushP)
                apply (erule pushP)
               apply (erule pushP)
              apply (erule pushP)
             apply (erule pushP)
            apply (erule pushP)
          subgoal for items
            apply (rule fold_invariant [where P = P])
            subgoal for e acc2
              apply (cases e)
              subgoal for item index
                apply (simp only: prod.case Let_def)
                apply (cases "isObject item")
                 apply (simp only: if_True)
                 apply (rule stepArr; assumption)
                apply (simp only: if_False)
                apply (erule pushP)
                done
              done
            apply (erule pushP)
            done
          subgoal for es
            apply (rule stepObj)
             apply simp
            apply assumption
            done
          done
        done
      done
  qed
qed

text \<open>An object whose two values are scalars flattens to its two entries.\<close>

lemma collect_flat2:
  "\<not> isObject v1 \<Longrightarrow> \<not> isObject v2 \<Longrightarrow>
   collectFieldArrays (JObj [(k1, v1), (k2, v2)]) [] \<lparr>fieldNames = [], values = []\<rparr>
     = \<lparr>fieldNames = [k1, k2], values = [v1, v2]\<rparr>"
  by (cases v1; cases v2) (simp_all add: collectFieldArrays.simps push_def)

lemma collect_flat1:
  "\<not> isObject v1 \<Longrightarrow>
   collectFieldArrays (JObj [(k1, v1)]) [] \<lparr>fieldNames = [], values = []\<rparr>
     = \<lparr>fieldNames = [k1], values = [v1]\<rparr>"
  by (cases v1) (simp_all add: collectFieldArrays.simps push_def)

lemma analyze_fieldNames:
  "fieldNames (analyzeMessagePayload p)
     = fieldNames (collectFieldArrays p [] \<lparr>fieldNames = [], values = []\<rparr>)"
  by (simp add: analyzeMessagePayload_def Let_def)

lemma analyze_values:
  "values (analyzeMessagePayload p)
     = values (collectFieldArrays p [] \<lparr>fieldNames = [], values = []\<rparr>)"
  by (simp add: analyzeMessagePayload_def Let_def)

section \<open>The claims about the flattener and the type detector\<close>

text \<open>
  C5. For every payload the analysis returned by \<^verbatim>\<open>analyzeMessagePayload\<close> has as many
  field names as values: the flattener starts from two empty sequences and only ever
  pushes onto both at once.
\<close>

theorem C5_parallel_lengths:
  "length (fieldNames (analyzeMessagePayload payload))
     = length (values (analyzeMessagePayload payload))"
proof -
  let ?P = "\<lambda>acc :: accumulator. length (fieldNames acc) = length (values acc)"
  have "?P (collectFieldArrays payload [] \<lparr>fieldNames = [], values = []\<rparr>)"
    by (rule collectFieldArrays_invariant [where P = ?P]) (simp_all add: push_def)
  then show ?thesis
    by (simp add: analyze_fieldNames analyze_values)
qed

text \<open>
  C1, as amended. The content phase only decides when the field-name phase has no match:
  the kind is the field-name phase's match when there is one, else the content phase's
  match, else \<open>Unknown\<close>. In particular the payload
  \<^verbatim>\<open>{template: 1, note: "tap the button below"}\<close> has the kind \<open>Template\<close>.
\<close>

theorem C1_field_phase_first:
  "type (analyzeMessagePayload payload) =
     (case matchedByField (fieldNames (analyzeMessagePayload payload))
             (values (analyzeMessagePayload payload)) of
        Some k \<Rightarrow> k
      | None \<Rightarrow>
          (case detectByValues (values (analyzeMessagePayload payload)) of
             Some k \<Rightarrow> k
           | None \<Rightarrow> Unknown))
   \<and> type (analyzeMessagePayload
        (JObj [(''template'', JNum 1), (''note'', JStr ''tap the button below'')])) = Template"
proof
  show "type (analyzeMessagePayload payload) =
     (case matchedByField (fieldNames (analyzeMessagePayload payload))
             (values (analyzeMessagePayload payload)) of
        Some k \<Rightarrow> k
      | None \<Rightarrow>
          (case detectByValues (values (analyzeMessagePayload payload)) of
             Some k \<Rightarrow> k
           | None \<Rightarrow> Unknown))"
    unfolding analyze_fieldNames analyze_values
    by (simp add: analyzeMessagePayload_def Let_def split: option.splits)
next
  show "type (analyzeMessagePayload
        (JObj [(''template'', JNum 1), (''note'', JStr ''tap the button below'')])) = Template"
    by (simp add: analyzeMessagePayload_def Let_def collect_flat2
        matchedByField_def messageTypeDetectors_def normaliseField_def toLowerCase_def)
qed

text \<open>
  C1 as stated fails: on \<^verbatim>\<open>{template: 1, note: "tap the button below"}\<close> the content
  phase would answer \<open>Buttons\<close>, and the kind returned is not \<open>Buttons\<close>.
\<close>

theorem C1_counterexample:
  "detectByValues (values (analyzeMessagePayload
      (JObj [(''template'', JNum 1), (''note'', JStr ''tap the button below'')]))) = Some Buttons
   \<and> type (analyzeMessagePayload
      (JObj [(''template'', JNum 1), (''note'', JStr ''tap the button below'')])) \<noteq> Buttons"
  by (simp add: analyzeMessagePayload_def Let_def collect_flat2 detectByValues_def
      matchedByField_def messageTypeDetectors_def normaliseField_def toLowerCase_def)

lemma matchedByField_Location_iff:
  "matchedByField names vs = Some Location \<longleftrightarrow>
     (\<not> list_ex (\<lambda>f. includesStr (normaliseField f) ''sticker'') names
      \<and> \<not> list_ex (\<lambda>f. includesStr (normaliseField f) ''reaction'') names
      \<and> \<not> list_ex (\<lambda>f. normaliseField f \<in> set [''template'', ''components'', ''language'']) names
      \<and> \<not> list_ex (\<lambda>f. includesStr (normaliseField f) ''buttons'') names
      \<and> \<not> list_ex (\<lambda>f. includesStr (normaliseField f) ''sections''
                         \<or> includesStr (normaliseField f) ''buttontext'') names
      \<and> list_ex (\<lambda>f. includesStr (normaliseField f) ''latitude'') names
      \<and> list_ex (\<lambda>f. includesStr (normaliseField f) ''longitude'') names)"
  by (simp add: matchedByField_def messageTypeDetectors_def)

text \<open>
  C8. The field-name phase assigns \<open>Location\<close> exactly when no earlier rule of the table
  matches, some path contains "latitude" and some path, possibly another one, contains
  "longitude", both tested on the lower-cased path; so it assigns \<open>Location\<close> only when
  both are there. A payload whose only keys are \<^verbatim>\<open>latitude\<close> and \<^verbatim>\<open>longitude\<close>, with
  scalar values, has the kind \<open>Location\<close>.
\<close>

theorem C8_location_needs_both:
  "(matchedByField names vs = Some Location \<longleftrightarrow>
      \<not> list_ex (\<lambda>f. includesStr (normaliseField f) ''sticker'') names
      \<and> \<not> list_ex (\<lambda>f. includesStr (normaliseField f) ''reaction'') names
      \<and> \<not> list_ex (\<lambda>f. normaliseField f \<in> set [''template'', ''components'', ''language'']) names
      \<and> \<not> list_ex (\<lambda>f. includesStr (normaliseField f) ''buttons'') names
      \<and> \<not> list_ex (\<lambda>f. includesStr (normaliseField f) ''sections''
                         \<or> includesStr (normaliseField f) ''buttontext'') names
      \<and> list_ex (\<lambda>f. includesStr (toLowerCase f) ''latitude'') names
      \<and> list_ex (\<lambda>f. includesStr (toLowerCase f) ''longitude'') names)
   \<and> (\<not> isObject v1 \<and> \<not> isObject v2 \<longrightarrow>
        type (analyzeMessagePayload (JObj [(''latitude'', v1), (''longitude'', v2)])) = Location)"
proof
  show "matchedByField names vs = Some Location \<longleftrightarrow>
      \<not> list_ex (\<lambda>f. includesStr (normaliseField f) ''sticker'') names
      \<and> \<not> list_ex (\<lambda>f. includesStr (normaliseField f) ''reaction'') names
      \<and> \<not> list_ex (\<lambda>f. normaliseField f \<in> set [''template'', ''components'', ''language'']) names
      \<and> \<not> list_ex (\<lambda>f. includesStr (normaliseField f) ''buttons'') names
      \<and> \<not> list_ex (\<lambda>f. includesStr (normaliseField f) ''sections''
                         \<or> includesStr (normaliseField f) ''buttontext'') names
      \<and> list_ex (\<lambda>f. includesStr (toLowerCase f) ''latitude'') names
      \<and> list_ex (\<lambda>f. includesStr (toLowerCase f) ''longitude'') names"
    unfolding matchedByField_Location_iff by (simp add: normaliseField_def)
next
  show "\<not> isObject v1 \<and> \<not> isObject v2 \<longrightarrow>
        type (analyzeMessagePayload (JObj [(''latitude'', v1), (''longitude'', v2)])) = Location"
    by (simp add: analyzeMessagePayload_def Let_def collect_flat2
        matchedByField_def messageTypeDetectors_def normaliseField_def toLowerCase_def)
qed

theorem C8_witness:
  "matchedByField [''Latitude'', ''geo.LONGITUDE''] [JNum 1, JNum 2] = Some Location
   \<and> \<not> isObject (JNum 1) \<and> \<not> isObject (JNum 2)
   \<and> type (analyzeMessagePayload (JObj [(''latitude'', JNum 1), (''longitude'', JNum 2)]))
        = Location"
  using C8_location_needs_both [of "[''Latitude'', ''geo.LONGITUDE'']" "[JNum 1, JNum 2]"
      "JNum 1" "JNum 2"]
  by (simp add: normaliseField_def toLowerCase_def)

lemma detectByValues_Location:
  assumes "\<not> list_ex (\<lambda>s. includesStr (toLowerCase s) ''sticker''
                         \<or> includesStr (toLowerCase s) ''reaction''
                         \<or> includesStr (toLowerCase s) ''template''
                         \<or> includesStr (toLowerCase s) ''button''
                         \<or> includesStr (toLowerCase s) ''section'') (filterStrings vs)"
    and "list_ex (\<lambda>s. includesStr (toLowerCase s) ''latitude'') (filterStrings vs)"
  shows "detectByValues vs = Some Location"
  using assms by (auto simp: detectByValues_def Let_def list_ex_iff)

text \<open>
  C9. In the content phase, when no string value contains "sticker", "reaction",
  "template", "button" or "section", a string value containing "latitude" (in any case)
  makes \<^verbatim>\<open>detectByValues\<close> answer \<open>Location\<close>; nothing is asked about "longitude". When
  moreover no field-name rule matched, that is the kind of the analysis.
\<close>

theorem C9_latitude_alone_in_content:
  "(\<not> list_ex (\<lambda>s. includesStr (toLowerCase s) ''sticker''
                     \<or> includesStr (toLowerCase s) ''reaction''
                     \<or> includesStr (toLowerCase s) ''template''
                     \<or> includesStr (toLowerCase s) ''button''
                     \<or> includesStr (toLowerCase s) ''section'') (filterStrings vs)
     \<and> list_ex (\<lambda>s. includesStr (toLowerCase s) ''latitude'') (filterStrings vs)
     \<longrightarrow> detectByValues vs = Some Location)
   \<and> (matchedByField (fieldNames (analyzeMessagePayload payload))
          (values (analyzeMessagePayload payload)) = None
      \<and> \<not> list_ex (\<lambda>s. includesStr (toLowerCase s) ''sticker''
                     \<or> includesStr (toLowerCase s) ''reaction''
                     \<or> includesStr (toLowerCase s) ''template''
                     \<or> includesStr (toLowerCase s) ''button''
                     \<or> includesStr (toLowerCase s) ''section'')
            (filterStrings (values (analyzeMessagePayload payload)))
      \<and> list_ex (\<lambda>s. includesStr (toLowerCase s) ''latitude'')
            (filterStrings (values (analyzeMessagePayload payload)))
      \<longrightarrow> type (analyzeMessagePayload payload) = Location)"
proof (intro conjI impI)
  assume "\<not> list_ex (\<lambda>s. includesStr (toLowerCase s) ''sticker''
                     \<or> includesStr (toLowerCase s) ''reaction''
                     \<or> includesStr (toLowerCase s) ''template''
                     \<or> includesStr (toLowerCase s) ''button''
                     \<or> includesStr (toLowerCase s) ''section'') (filterStrings vs)
     \<and> list_ex (\<lambda>s. includesStr (toLowerCase s) ''latitude'') (filterStrings vs)"
  then show "detectByValues vs = Some Location"
    by (simp add: detectByValues_Location)
next
  let ?a = "analyzeMessagePayload payload"
  assume h: "matchedByField (fieldNames ?a) (values ?a) = None
      \<and> \<not> list_ex (\<lambda>s. includesStr (toLowerCase s) ''sticker''
                     \<or> includesStr (toLowerCase s) ''reaction''
                     \<or> includesStr (toLowerCase s) ''template''
                     \<or> includesStr (toLowerCase s) ''button''
                     \<or> includesStr (toLowerCase s) ''section'') (filterStrings (values ?a))
      \<and> list_ex (\<lambda>s. includesStr (toLowerCase s) ''latitude'') (filterStrings (values ?a))"
  then have d: "detectByValues (values ?a) = Some Location"
    by (simp add: detectByValues_Location)
  have "type ?a =
     (case matchedByField (fieldNames ?a) (values ?a) of
        Some k \<Rightarrow> k
      | None \<Rightarrow> (case detectByValues (values ?a) of Some k \<Rightarrow> k | None \<Rightarrow> Unknown))"
    unfolding analyze_fieldNames analyze_values
    by (simp add: analyzeMessagePayload_def Let_def split: option.splits)
  with h d show "type ?a = Location" by simp
qed

theorem C9_witness:
  "matchedByField (fieldNames (analyzeMessagePayload (JObj [(''note'', JStr ''my LATITUDE is 12'')])))
      (values (analyzeMessagePayload (JObj [(''note'', JStr ''my LATITUDE is 12'')]))) = None
   \<and> \<not> list_ex (\<lambda>s. includesStr (toLowerCase s) ''longitude'')
        (filterStrings (values (analyzeMessagePayload (JObj [(''note'', JStr ''my LATITUDE is 12'')]))))
   \<and> detectByValues [JStr ''my LATITUDE is 12''] = Some Location
   \<and> type (analyzeMessagePayload (JObj [(''note'', JStr ''my LATITUDE is 12'')])) = Location"
  using C9_latitude_alone_in_content [of "[JStr ''my LATITUDE is 12'']"
      "JObj [(''note'', JStr ''my LATITUDE is 12'')]"]
  by (simp add: analyze_fieldNames analyze_values collect_flat1
      matchedByField_def messageTypeDetectors_def normaliseField_def toLowerCase_def)

section \<open>Facts about the inferer\<close>

lemma getProp_defined:
  "body \<noteq> JNull \<Longrightarrow> body \<noteq> JUndefined \<Longrightarrow> \<exists>v. getProp body key = Inr v"
  by (cases body) simp_all

lemma getProp_Inr_not_nullish:
  "getProp body key = Inr v \<Longrightarrow> body \<noteq> JNull \<and> body \<noteq> JUndefined"
  by (cases body) simp_all

lemma infer_url_branch:
  "urlBranchFires C a u \<Longrightarrow> inferMediaMetadata C body a = inferFromUrl C body u emptyMetadata"
  by (simp add: urlBranchFires_def inferMediaMetadata_def Let_def)

lemma infer_base64_branch:
  "base64BranchFires C a b \<Longrightarrow>
   inferMediaMetadata C body a = inferFromBase64 body b emptyMetadata"
  by (auto simp: base64BranchFires_def inferMediaMetadata_def Let_def split: option.splits)

lemma infer_no_branch:
  "urlCandidate C a = None \<Longrightarrow> base64Candidate C a = None \<Longrightarrow>
   inferMediaMetadata C body a = Inr emptyMetadata"
  by (simp add: inferMediaMetadata_def Let_def)

text \<open>The URL branch on a body whose four properties can be read.\<close>

lemma inferFromUrl_result:
  assumes "getProp body ''media'' = Inr vm" "getProp body ''mimetype'' = Inr vt"
    "getProp body ''mediatype'' = Inr vk" "getProp body ''fileName'' = Inr vf"
  shows "inferFromUrl C body u emptyMetadata =
    Inr \<lparr>mediatype = Some (orElse vk
            (JStr (case inferMediaTypeFromMime (orUndefined (mimeTypes_lookup C u)) of
                     Some t \<Rightarrow> t | None \<Rightarrow> ''document''))),
         mimetype = Some (orElse vt (strOrUndefined (orUndefined (mimeTypes_lookup C u)))),
         fileName = (if \<not> truthy vf \<and> urlExtension C u \<noteq> []
                     then Some (JStr (''media.'' @ urlExtension C u)) else None),
         media = Some (orElse vm (JStr u))\<rparr>"
proof -
  have idem: "orUndefined (orUndefined x) = orUndefined x" for x
    by (simp add: orUndefined_def split: option.splits)
  show ?thesis
    using assms
    by (simp add: inferFromUrl_def bindE_def Let_def emptyMetadata_def urlExtension_def idem)
qed

lemma assignDefaults_result:
  assumes "getProp body ''mimetype'' = Inr vt"
    "getProp body ''mediatype'' = Inr vk" "getProp body ''fileName'' = Inr vf"
  shows "assignDefaults body kind mime name md =
    Inr (md\<lparr>mediatype := Some (orElse vk (JStr kind)),
            mimetype := Some (orElse vt (JStr mime)),
            fileName := Some (orElse vf (JStr name))\<rparr>)"
  using assms by (simp add: assignDefaults_def bindE_def)

lemma inferFromBase64_result:
  assumes "getProp body ''media'' = Inr vm" "getProp body ''mimetype'' = Inr vt"
    "getProp body ''mediatype'' = Inr vk" "getProp body ''fileName'' = Inr vf"
  shows "inferFromBase64 body b emptyMetadata =
      Inr \<lparr>mediatype = Some (orElse vk (JStr (fst (base64Defaults b)))),
           mimetype = Some (orElse vt (JStr (fst (snd (base64Defaults b))))),
           fileName = Some (orElse vf (JStr (snd (snd (base64Defaults b))))),
           media = Some (orElse vm (JStr b))\<rparr>"
  using assms
  by (simp add: inferFromBase64_def bindE_def Let_def emptyMetadata_def assignDefaults_result
      base64Defaults_def)

lemma base64Defaults_rules:
  "base64Defaults b \<in> set [(''audio'', ''audio/ogg'', ''audio.ogg''),
      (''image'', ''image/jpeg'', ''image.jpg''), (''video'', ''video/mp4'', ''video.mp4''),
      (''audio'', ''audio/mpeg'', ''audio.mp3''), (''image'', ''image/png'', ''image.png'')]"
  by (simp add: base64Defaults_def Let_def)

lemma find_None_list_ex: "List.find P xs = None \<longleftrightarrow> \<not> list_ex P xs"
  by (induction xs) auto



lemma last_splitStr:
  "c \<notin> set (last (splitStr u c))
   \<and> (u = last (splitStr u c) \<or> (\<exists>pre. u = pre @ [c] @ last (splitStr u c)))"
proof (induction u)
  case Nil
  show ?case by simp
next
  case (Cons x xs)
  show ?case
  proof (cases "x = c")
    case True
    have ne: "splitStr xs c \<noteq> []" by (rule splitStr_nonempty)
    have l: "last (splitStr (x # xs) c) = last (splitStr xs c)"
      using True ne by simp
    from Cons.IH have "xs = last (splitStr xs c) \<or> (\<exists>pre. xs = pre @ [c] @ last (splitStr xs c))"
      by blast
    then have "\<exists>pre. x # xs = pre @ [c] @ last (splitStr xs c)"
    proof
      assume "xs = last (splitStr xs c)"
      then have "x # xs = [] @ [c] @ last (splitStr xs c)" using True by simp
      then show ?thesis by blast
    next
      assume "\<exists>pre. xs = pre @ [c] @ last (splitStr xs c)"
      then obtain pre where "xs = pre @ [c] @ last (splitStr xs c)" by blast
      then have "x # xs = (x # pre) @ [c] @ last (splitStr xs c)" by simp
      then show ?thesis by blast
    qed
    with Cons.IH l show ?thesis by simp
  next
    case False
    obtain w ws where sp: "splitStr xs c = w # ws"
      using splitStr_nonempty [of xs c] by (cases "splitStr xs c") auto
    show ?thesis
    proof (cases ws)
      case Nil
      then have l: "last (splitStr (x # xs) c) = x # w" and lx: "last (splitStr xs c) = w"
        using False sp by simp_all
      from Cons.IH lx have nc: "c \<notin> set w" by simp
      from Cons.IH lx have "xs = w \<or> (\<exists>pre. xs = pre @ [c] @ w)" by simp
      then have "xs = w"
      proof
        assume "xs = w" then show ?thesis .
      next
        assume "\<exists>pre. xs = pre @ [c] @ w"
        then obtain pre where p: "xs = pre @ [c] @ w" by blast
        have "length (splitStr (pre @ [c] @ w) c) \<ge> 2" for pre
          by (induction pre) (auto split: list.splits simp: splitStr_nonempty Suc_le_eq)
        then have "length (splitStr xs c) \<ge> 2" using p by simp
        then show ?thesis using sp Nil by simp
      qed
      with l nc False show ?thesis by simp
    next
      case (Cons w' ws')
      then have l: "last (splitStr (x # xs) c) = last (splitStr xs c)"
        using False sp by simp
      from Cons.IH have "xs = last (splitStr xs c) \<or> (\<exists>pre. xs = pre @ [c] @ last (splitStr xs c))"
        by blast
      then have "\<exists>pre. x # xs = pre @ [c] @ last (splitStr xs c)"
      proof
        assume e: "xs = last (splitStr xs c)"
        have "c \<in> set xs"
        proof (rule ccontr)
          assume "c \<notin> set xs"
          then have "splitStr xs c = [xs]"
            by (induction xs) (auto)
          then show False using sp Cons by simp
        qed
        moreover have "c \<notin> set (last (splitStr xs c))" using Cons.IH by blast
        ultimately show ?thesis using e by simp
      next
        assume "\<exists>pre. xs = pre @ [c] @ last (splitStr xs c)"
        then obtain pre where "xs = pre @ [c] @ last (splitStr xs c)" by blast
        then have "x # xs = (x # pre) @ [c] @ last (splitStr xs c)" by simp
        then show ?thesis by blast
      qed
      with Cons.IH l show ?thesis by simp
    qed
  qed
qed

text \<open>The analyses of the examples.\<close>

lemma analyze_values_flat1:
  "\<not> isObject v \<Longrightarrow> values (analyzeMessagePayload (JObj [(k, v)])) = [v]"
  by (simp add: analyze_values collect_flat1)


lemma stub_simps:
  "isURL stubCollaborators s
     = (s = ''http://example.com/a.png'' \<or> s = ''http://example.com/download''
        \<or> s = slashRun)"
  "isBase64 stubCollaborators s = (s \<noteq> [] \<and> set s = {CHR ''A''} \<and> 4 dvd length s)"
  "mimeTypes_lookup stubCollaborators s
     = (if s = ''http://example.com/a.png'' then Some ''image/png'' else None)"
  "mimeTypes_extension stubCollaborators m = (if m = ''image/png'' then Some ''png'' else None)"
  by (simp_all add: stubCollaborators_def)

lemma stub_url_png:
  "urlBranchFires stubCollaborators
     (analyzeMessagePayload (JObj [(''media'', JStr ''http://example.com/a.png'')]))
     ''http://example.com/a.png''"
  by (simp add: urlBranchFires_def urlCandidate_def analyze_values_flat1 stub_simps)

lemma stub_url_download:
  "urlBranchFires stubCollaborators
     (analyzeMessagePayload (JObj [(''media'', JStr ''http://example.com/download'')]))
     ''http://example.com/download''"
  by (simp add: urlBranchFires_def urlCandidate_def analyze_values_flat1 stub_simps)


lemma runOfAs_length [simp]: "length (runOfAs n) = n"
  by (simp add: runOfAs_def)

lemma runOfAs_set: "0 < n \<Longrightarrow> set (runOfAs n) = {CHR ''A''}"
  by (simp add: runOfAs_def)

lemma runOfAs_nonempty: "0 < n \<Longrightarrow> runOfAs n \<noteq> []"
  by (simp add: runOfAs_def)

lemma runOfAs_lower: "set (toLowerCase (runOfAs n)) \<subseteq> {CHR ''a''}"
  by (auto simp: runOfAs_def toLowerCase_def)

lemma includesStr_set: "includesStr s sub \<Longrightarrow> set sub \<subseteq> set s"
  by (auto simp: includesStr_iff)

lemma runOfAs_no_marker:
  "x \<in> set sub \<Longrightarrow> x \<noteq> CHR ''a'' \<Longrightarrow> \<not> includesStr (toLowerCase (runOfAs n)) sub"
  using includesStr_set [of "toLowerCase (runOfAs n)" sub] runOfAs_lower [of n] by auto

lemma runOfAs_markers:
  "\<not> includesStr (toLowerCase (runOfAs n)) ''audio/ogg''"
  "\<not> includesStr (toLowerCase (runOfAs n)) ''.ogg''"
  "\<not> includesStr (toLowerCase (runOfAs n)) ''image/jpeg''"
  "\<not> includesStr (toLowerCase (runOfAs n)) ''.jpg''"
  "\<not> includesStr (toLowerCase (runOfAs n)) ''jpeg''"
  by (rule runOfAs_no_marker [where x = "CHR ''g''"]; simp)+

lemma slashRun_facts:
  "length slashRun = 150" "CHR ''/'' \<in> set slashRun" "slashRun \<noteq> []"
  "set slashRun \<subseteq> {CHR ''A'', CHR ''/''}" "CHR ''.'' \<notin> set slashRun"
  by (auto simp: slashRun_def runOfAs_def)


lemma runOfAs_not_url: "63 < n \<Longrightarrow> \<not> isURL stubCollaborators (runOfAs n)"
proof
  assume "isURL stubCollaborators (runOfAs n)"
  then have "runOfAs n = ''http://example.com/a.png'' \<or> runOfAs n = ''http://example.com/download''
      \<or> runOfAs n = slashRun"
    by (simp add: stub_simps)
  then have "CHR ''/'' \<in> set (runOfAs n)"
    using slashRun_facts(2) by auto
  then show False by (simp add: runOfAs_def)
qed

lemma stub_base64_run:
  "200 < n \<Longrightarrow> 4 dvd n \<Longrightarrow>
   base64BranchFires stubCollaborators
     (analyzeMessagePayload (JObj [(''file'', JStr (runOfAs n))])) (runOfAs n)"
  by (simp add: base64BranchFires_def urlCandidate_def base64Candidate_def analyze_values_flat1
      runOfAs_not_url stub_simps(2) runOfAs_set runOfAs_nonempty LONG_STRING_THRESHOLD_def)


lemma infer_returns:
  assumes "body \<noteq> JNull" "body \<noteq> JUndefined"
  shows "\<exists>md. inferMediaMetadata C body a = Inr md"
proof -
  obtain vm vt vk vf where g: "getProp body ''media'' = Inr vm"
      "getProp body ''mimetype'' = Inr vt" "getProp body ''mediatype'' = Inr vk"
      "getProp body ''fileName'' = Inr vf"
    using getProp_defined [OF assms] by metis
  show ?thesis
    by (simp add: inferMediaMetadata_def Let_def inferFromUrl_result [OF g]
        inferFromBase64_result [OF g] split: option.splits)
qed

lemma isBase64_update_url [simp]:
  "urlCandidate (C\<lparr>isBase64 := q\<rparr>) a = urlCandidate C a"
  by (simp add: urlCandidate_def)

lemma inferFromUrl_isBase64_update [simp]:
  "inferFromUrl (C\<lparr>isBase64 := q\<rparr>) body u md = inferFromUrl C body u md"
  by (simp add: inferFromUrl_def)

lemma runOfAs_inject: "runOfAs m = runOfAs n \<longleftrightarrow> m = n"
  by (auto simp: runOfAs_def)















text \<open>
  What both branches do with the values the body already carries: \<^verbatim>\<open>media\<close>,
  \<^verbatim>\<open>mimetype\<close> and \<^verbatim>\<open>mediatype\<close> are copied in either branch, \<^verbatim>\<open>fileName\<close> is copied
  in the base64 branch only.
\<close>

lemma body_values_in_result:
  assumes "urlBranchFires C a u \<or> base64BranchFires C a b"
  shows "(getProp body ''media'' = Inr v \<and> truthy v \<longrightarrow>
            (\<exists>md. inferMediaMetadata C body a = Inr md \<and> media md = Some v))
       \<and> (getProp body ''mimetype'' = Inr v \<and> truthy v \<longrightarrow>
            (\<exists>md. inferMediaMetadata C body a = Inr md \<and> mimetype md = Some v))
       \<and> (getProp body ''mediatype'' = Inr v \<and> truthy v \<longrightarrow>
            (\<exists>md. inferMediaMetadata C body a = Inr md \<and> mediatype md = Some v))
       \<and> (getProp body ''fileName'' = Inr v \<and> truthy v \<longrightarrow>
            (\<exists>md. inferMediaMetadata C body a = Inr md
               \<and> fileName md = (if urlBranchFires C a u then None else Some v)))"
proof -
  have main: "\<exists>md. inferMediaMetadata C body a = Inr md
      \<and> media md = Some (orElse vm (JStr (if urlBranchFires C a u then u else b)))
      \<and> (truthy vt \<longrightarrow> mimetype md = Some vt)
      \<and> (truthy vk \<longrightarrow> mediatype md = Some vk)
      \<and> (truthy vf \<longrightarrow> fileName md = (if urlBranchFires C a u then None else Some vf))"
    if "getProp body ''media'' = Inr vm" "getProp body ''mimetype'' = Inr vt"
      "getProp body ''mediatype'' = Inr vk" "getProp body ''fileName'' = Inr vf"
    for vm vt vk vf
  proof (cases "urlBranchFires C a u")
    case True
    then show ?thesis
      using that by (simp add: infer_url_branch inferFromUrl_result orElse_def)
  next
    case False
    then have "base64BranchFires C a b" using assms by simp
    then show ?thesis
      using that False by (simp add: infer_base64_branch inferFromBase64_result orElse_def)
  qed
  have all: "\<exists>vm vt vk vf. getProp body ''media'' = Inr vm \<and> getProp body ''mimetype'' = Inr vt
      \<and> getProp body ''mediatype'' = Inr vk \<and> getProp body ''fileName'' = Inr vf"
    if "getProp body key = Inr w" for key w
    using getProp_Inr_not_nullish [OF that] by (simp add: getProp_defined)
  show ?thesis
  proof (intro conjI impI)
    assume h: "getProp body ''media'' = Inr v \<and> truthy v"
    then obtain vm vt vk vf where g: "getProp body ''media'' = Inr vm"
      "getProp body ''mimetype'' = Inr vt" "getProp body ''mediatype'' = Inr vk"
      "getProp body ''fileName'' = Inr vf" using all by blast
    from main [OF g] h g show "\<exists>md. inferMediaMetadata C body a = Inr md \<and> media md = Some v"
      by (auto simp: orElse_def)
  next
    assume h: "getProp body ''mimetype'' = Inr v \<and> truthy v"
    then obtain vm vt vk vf where g: "getProp body ''media'' = Inr vm"
      "getProp body ''mimetype'' = Inr vt" "getProp body ''mediatype'' = Inr vk"
      "getProp body ''fileName'' = Inr vf" using all by blast
    from main [OF g] h g show "\<exists>md. inferMediaMetadata C body a = Inr md \<and> mimetype md = Some v"
      by auto
  next
    assume h: "getProp body ''mediatype'' = Inr v \<and> truthy v"
    then obtain vm vt vk vf where g: "getProp body ''media'' = Inr vm"
      "getProp body ''mimetype'' = Inr vt" "getProp body ''mediatype'' = Inr vk"
      "getProp body ''fileName'' = Inr vf" using all by blast
    from main [OF g] h g show "\<exists>md. inferMediaMetadata C body a = Inr md \<and> mediatype md = Some v"
      by auto
  next
    assume h: "getProp body ''fileName'' = Inr v \<and> truthy v"
    then obtain vm vt vk vf where g: "getProp body ''media'' = Inr vm"
      "getProp body ''mimetype'' = Inr vt" "getProp body ''mediatype'' = Inr vk"
      "getProp body ''fileName'' = Inr vf" using all by blast
    from main [OF g] h g show "\<exists>md. inferMediaMetadata C body a = Inr md
        \<and> fileName md = (if urlBranchFires C a u then None else Some v)"
      by auto
  qed
qed

section \<open>The claims about the inferer\<close>

text \<open>
  C2. Each of \<^verbatim>\<open>media\<close>, \<^verbatim>\<open>mimetype\<close>, \<^verbatim>\<open>mediatype\<close>, \<^verbatim>\<open>fileName\<close> that is truthy on
  the body is to appear unchanged in the returned record, in the URL branch as in the
  base64 branch. The URL branch misses \<^verbatim>\<open>fileName\<close>: for the body
  \<^verbatim>\<open>{fileName: "photo.png"}\<close> and the value \<^verbatim>\<open>http://example.com/a.png\<close> the URL branch
  fires, the body's \<^verbatim>\<open>fileName\<close> is truthy, and the returned record holds \<^verbatim>\<open>media\<close>,
  \<^verbatim>\<open>mimetype\<close> and \<^verbatim>\<open>mediatype\<close> but no \<^verbatim>\<open>fileName\<close>.
\<close>

theorem C2_url_branch_drops_fileName:
  "urlBranchFires stubCollaborators
     (analyzeMessagePayload (JObj [(''media'', JStr ''http://example.com/a.png'')]))
     ''http://example.com/a.png''
   \<and> getProp (JObj [(''fileName'', JStr ''photo.png'')]) ''fileName'' = Inr (JStr ''photo.png'')
   \<and> truthy (JStr ''photo.png'')
   \<and> inferMediaMetadata stubCollaborators (JObj [(''fileName'', JStr ''photo.png'')])
       (analyzeMessagePayload (JObj [(''media'', JStr ''http://example.com/a.png'')]))
      = Inr \<lparr>mediatype = Some (JStr ''image''), mimetype = Some (JStr ''image/png''),
             fileName = None, media = Some (JStr ''http://example.com/a.png'')\<rparr>"
  by (simp add: stub_url_png infer_url_branch [OF stub_url_png]
      inferFromUrl_result [where vm = JUndefined and vt = JUndefined and vk = JUndefined
        and vf = "JStr ''photo.png''"]
      orElse_def stub_simps orUndefined_def strOrUndefined_def
      inferMediaTypeFromMime_def startsWith_def)

text \<open>
  C3, as amended. For every body other than \<^verbatim>\<open>null\<close> and \<^verbatim>\<open>undefined\<close>, and every
  analysis, \<^verbatim>\<open>inferMediaMetadata\<close> returns a record. For every body whatsoever, when no
  string value passes the URL test and none is a base64 candidate (longer than 200 and
  passing the base64 test), it returns the empty record: the body is not read then.
\<close>

theorem C3_returns_unless_body_nullish:
  "(body \<noteq> JNull \<and> body \<noteq> JUndefined \<longrightarrow> (\<exists>md. inferMediaMetadata C body a = Inr md))
   \<and> (\<not> list_ex (isURL C) (filterStrings (values a))
      \<and> \<not> list_ex (\<lambda>s. 200 < length s \<and> isBase64 C s) (filterStrings (values a))
      \<longrightarrow> inferMediaMetadata C body a = Inr emptyMetadata)"
proof (intro conjI impI)
  assume "body \<noteq> JNull \<and> body \<noteq> JUndefined"
  then show "\<exists>md. inferMediaMetadata C body a = Inr md"
    by (simp add: infer_returns)
next
  assume "\<not> list_ex (isURL C) (filterStrings (values a))
      \<and> \<not> list_ex (\<lambda>s. 200 < length s \<and> isBase64 C s) (filterStrings (values a))"
  then have "urlCandidate C a = None" "base64Candidate C a = None"
    by (simp_all add: urlCandidate_def base64Candidate_def find_None_list_ex
        LONG_STRING_THRESHOLD_def)
  then show "inferMediaMetadata C body a = Inr emptyMetadata"
    by (rule infer_no_branch)
qed

theorem C3_witness:
  "JObj [] \<noteq> JNull \<and> JObj [] \<noteq> JUndefined
   \<and> (\<exists>md. inferMediaMetadata stubCollaborators (JObj [])
          (analyzeMessagePayload (JObj [(''media'', JStr ''http://example.com/a.png'')])) = Inr md)
   \<and> filterStrings (values (analyzeMessagePayload (JObj [(''count'', JNum 5)]))) = []
   \<and> \<not> list_ex (isURL stubCollaborators)
        (filterStrings (values (analyzeMessagePayload (JObj [(''count'', JNum 5)]))))
   \<and> \<not> list_ex (\<lambda>s. 200 < length s \<and> isBase64 stubCollaborators s)
        (filterStrings (values (analyzeMessagePayload (JObj [(''count'', JNum 5)]))))
   \<and> inferMediaMetadata stubCollaborators JNull
        (analyzeMessagePayload (JObj [(''count'', JNum 5)])) = Inr emptyMetadata"
proof -
  have v: "filterStrings (values (analyzeMessagePayload (JObj [(''count'', JNum 5)]))) = []"
    by (simp add: analyze_values_flat1)
  note t1 = C3_returns_unless_body_nullish [of "JObj []" stubCollaborators
      "analyzeMessagePayload (JObj [(''media'', JStr ''http://example.com/a.png'')])"]
  note t2 = C3_returns_unless_body_nullish [of JNull stubCollaborators
      "analyzeMessagePayload (JObj [(''count'', JNum 5)])"]
  from t1 have r1: "\<exists>md. inferMediaMetadata stubCollaborators (JObj [])
          (analyzeMessagePayload (JObj [(''media'', JStr ''http://example.com/a.png'')])) = Inr md"
    by simp
  from t2 v have r2: "inferMediaMetadata stubCollaborators JNull
        (analyzeMessagePayload (JObj [(''count'', JNum 5)])) = Inr emptyMetadata"
    by simp
  from r1 r2 v show ?thesis by simp
qed

text \<open>
  C3 as stated fails: with a URL candidate among the values and the body \<^verbatim>\<open>null\<close>, the
  first statement of the URL branch reads \<^verbatim>\<open>body.media\<close> and raises a \<^verbatim>\<open>TypeError\<close>.
\<close>

theorem C3_counterexample:
  "inferMediaMetadata stubCollaborators JNull
     (analyzeMessagePayload (JObj [(''media'', JStr ''http://example.com/a.png'')]))
   = Inl TypeError"
  by (simp add: infer_url_branch [OF stub_url_png] inferFromUrl_def bindE_def)

text \<open>
  C4, as amended. In the URL branch, when \<^verbatim>\<open>body.fileName\<close> is absent (or otherwise
  falsy), the extension is the registry's extension for the looked-up MIME type when that
  is a non-empty string, and else the text after the last dot of the URL (the whole URL
  when it has no dot); \<^verbatim>\<open>fileName\<close> is "media." followed by that extension when the
  extension is not empty, and is not set when it is empty.
\<close>

theorem C4_url_fileName:
  assumes "urlBranchFires C a u" and "getProp body ''fileName'' = Inr v" and "\<not> truthy v"
  shows "(\<exists>md. inferMediaMetadata C body a = Inr md
            \<and> fileName md = (if urlExtension C u \<noteq> []
                              then Some (JStr (''media.'' @ urlExtension C u)) else None))
       \<and> (case orUndefined (mimeTypes_extension C (orEmpty (orUndefined (mimeTypes_lookup C u)))) of
             Some e \<Rightarrow> urlExtension C u = e \<and> e \<noteq> []
           | None \<Rightarrow>
               CHR ''.'' \<notin> set (urlExtension C u)
               \<and> (u = urlExtension C u \<or> (\<exists>pre. u = pre @ ''.'' @ urlExtension C u)))"
proof
  obtain vm vt vk where g: "getProp body ''media'' = Inr vm"
      "getProp body ''mimetype'' = Inr vt" "getProp body ''mediatype'' = Inr vk"
    using getProp_defined getProp_Inr_not_nullish [OF assms(2)] by metis
  show "\<exists>md. inferMediaMetadata C body a = Inr md
            \<and> fileName md = (if urlExtension C u \<noteq> []
                              then Some (JStr (''media.'' @ urlExtension C u)) else None)"
    using assms(3)
    by (simp add: infer_url_branch [OF assms(1)] inferFromUrl_result [OF g assms(2)])
next
  show "case orUndefined (mimeTypes_extension C (orEmpty (orUndefined (mimeTypes_lookup C u)))) of
             Some e \<Rightarrow> urlExtension C u = e \<and> e \<noteq> []
           | None \<Rightarrow>
               CHR ''.'' \<notin> set (urlExtension C u)
               \<and> (u = urlExtension C u \<or> (\<exists>pre. u = pre @ ''.'' @ urlExtension C u))"
    using last_splitStr [of "CHR ''.''" u]
    by (auto simp: urlExtension_def orUndefined_def split: option.splits if_splits)
qed

theorem C4_witness:
  "urlBranchFires stubCollaborators
     (analyzeMessagePayload (JObj [(''media'', JStr ''http://example.com/a.png'')]))
     ''http://example.com/a.png''
   \<and> getProp (JObj []) ''fileName'' = Inr JUndefined \<and> \<not> truthy JUndefined
   \<and> urlExtension stubCollaborators ''http://example.com/a.png'' = ''png''
   \<and> (\<exists>md. inferMediaMetadata stubCollaborators (JObj [])
          (analyzeMessagePayload (JObj [(''media'', JStr ''http://example.com/a.png'')])) = Inr md
        \<and> fileName md = Some (JStr ''media.png''))"
  using C4_url_fileName [of stubCollaborators
      "analyzeMessagePayload (JObj [(''media'', JStr ''http://example.com/a.png'')])"
      "''http://example.com/a.png''" "JObj []" JUndefined] stub_url_png
  by (simp add: urlExtension_def stub_simps orUndefined_def orEmpty_def)

text \<open>
  C4 as stated fails: for the URL \<^verbatim>\<open>http://example.com/download\<close> the registry has no
  type and no extension, the trailing path segment is "download", and the file name
  synthesized is "media.com/download".
\<close>

theorem C4_counterexample:
  "urlBranchFires stubCollaborators
     (analyzeMessagePayload (JObj [(''media'', JStr ''http://example.com/download'')]))
     ''http://example.com/download''
   \<and> getProp (JObj []) ''fileName'' = Inr JUndefined
   \<and> mimeTypes_lookup stubCollaborators ''http://example.com/download'' = None
   \<and> mimeTypes_extension stubCollaborators [] = None
   \<and> trailingPathSegment ''http://example.com/download'' = ''download''
   \<and> inferMediaMetadata stubCollaborators (JObj [])
        (analyzeMessagePayload (JObj [(''media'', JStr ''http://example.com/download'')]))
      = Inr \<lparr>mediatype = Some (JStr ''document''), mimetype = Some JUndefined,
             fileName = Some (JStr ''media.com/download''),
             media = Some (JStr ''http://example.com/download'')\<rparr>"
  by (simp add: stub_url_download infer_url_branch [OF stub_url_download]
      inferFromUrl_result [where vm = JUndefined and vt = JUndefined and vk = JUndefined
        and vf = JUndefined]
      orElse_def stub_simps orUndefined_def orEmpty_def strOrUndefined_def urlExtension_def
      inferMediaTypeFromMime_def trailingPathSegment_def)




text \<open>
  C7. When the base64 branch selects a candidate of more than 4,000,000 characters (so one
  of 5,000,000) whose lower-cased content has none of the markers "audio/ogg", ".ogg",
  "image/jpeg", ".jpg", "jpeg", and the body supplies no truthy \<^verbatim>\<open>mediatype\<close>,
  \<^verbatim>\<open>mimetype\<close> or \<^verbatim>\<open>fileName\<close>, the result has the media type "video", the MIME type
  "video/mp4" and the file name "video.mp4".
\<close>

theorem C7_large_unmarked_base64_is_video:
  assumes "base64BranchFires C a b"
    and "4000000 < length b"
    and "\<not> includesStr (toLowerCase b) ''audio/ogg''"
    and "\<not> includesStr (toLowerCase b) ''.ogg''"
    and "\<not> includesStr (toLowerCase b) ''image/jpeg''"
    and "\<not> includesStr (toLowerCase b) ''.jpg''"
    and "\<not> includesStr (toLowerCase b) ''jpeg''"
    and "getProp body ''mediatype'' = Inr vk" and "\<not> truthy vk"
    and "getProp body ''mimetype'' = Inr vt" and "\<not> truthy vt"
    and "getProp body ''fileName'' = Inr vf" and "\<not> truthy vf"
  shows "\<exists>md. inferMediaMetadata C body a = Inr md
           \<and> mediatype md = Some (JStr ''video'')
           \<and> mimetype md = Some (JStr ''video/mp4'')
           \<and> fileName md = Some (JStr ''video.mp4'')"
proof -
  obtain vm where m: "getProp body ''media'' = Inr vm"
    using getProp_defined getProp_Inr_not_nullish [OF assms(8)] by metis
  have d: "base64Defaults b = (''video'', ''video/mp4'', ''video.mp4'')"
    using assms(2-7) by (simp add: base64Defaults_def Let_def VIDEO_SIZE_THRESHOLD_def)
  show ?thesis
    using assms(9,11,13)
    by (simp add: infer_base64_branch [OF assms(1)]
        inferFromBase64_result [OF m assms(10) assms(8) assms(12)] d orElse_def)
qed

theorem C7_witness:
  "base64BranchFires stubCollaborators
     (analyzeMessagePayload (JObj [(''file'', JStr (runOfAs 5000000))])) (runOfAs 5000000)
   \<and> length (runOfAs 5000000) = 5000000
   \<and> \<not> includesStr (toLowerCase (runOfAs 5000000)) ''audio/ogg''
   \<and> \<not> includesStr (toLowerCase (runOfAs 5000000)) ''.ogg''
   \<and> \<not> includesStr (toLowerCase (runOfAs 5000000)) ''image/jpeg''
   \<and> \<not> includesStr (toLowerCase (runOfAs 5000000)) ''.jpg''
   \<and> \<not> includesStr (toLowerCase (runOfAs 5000000)) ''jpeg''
   \<and> getProp (JObj [(''media'', JStr ''clip'')]) ''mediatype'' = Inr JUndefined
   \<and> getProp (JObj [(''media'', JStr ''clip'')]) ''mimetype'' = Inr JUndefined
   \<and> getProp (JObj [(''media'', JStr ''clip'')]) ''fileName'' = Inr JUndefined
   \<and> \<not> truthy JUndefined
   \<and> (\<exists>md. inferMediaMetadata stubCollaborators (JObj [(''media'', JStr ''clip'')])
          (analyzeMessagePayload (JObj [(''file'', JStr (runOfAs 5000000))])) = Inr md
        \<and> mediatype md = Some (JStr ''video'')
        \<and> mimetype md = Some (JStr ''video/mp4'')
        \<and> fileName md = Some (JStr ''video.mp4''))"
  using C7_large_unmarked_base64_is_video [of stubCollaborators
      "analyzeMessagePayload (JObj [(''file'', JStr (runOfAs 5000000))])" "runOfAs 5000000"
      "JObj [(''media'', JStr ''clip'')]" JUndefined JUndefined JUndefined]
    stub_base64_run [of 5000000]
  by (simp add: runOfAs_markers)

text \<open>
  C10. Whenever the base64 branch selects a candidate, every record the call returns has
  all four fields: \<^verbatim>\<open>media\<close> is the body's truthy value or the candidate, and
  \<^verbatim>\<open>mediatype\<close>, \<^verbatim>\<open>mimetype\<close>, \<^verbatim>\<open>fileName\<close> are each the body's truthy value or the
  default of the one classification rule that applies. The call does return a record for
  every body whose properties can be read.
\<close>

theorem C10_base64_sets_all_four:
  assumes "base64BranchFires C a b"
  shows "(body \<noteq> JNull \<and> body \<noteq> JUndefined \<longrightarrow>
            (\<exists>md. inferMediaMetadata C body a = Inr md))
       \<and> (\<forall>md. inferMediaMetadata C body a = Inr md \<longrightarrow>
            (\<exists>vm vk vt vf.
               getProp body ''media'' = Inr vm \<and> getProp body ''mediatype'' = Inr vk
               \<and> getProp body ''mimetype'' = Inr vt \<and> getProp body ''fileName'' = Inr vf
               \<and> media md = Some (if truthy vm then vm else JStr b)
               \<and> mediatype md = Some (if truthy vk then vk else JStr (fst (base64Defaults b)))
               \<and> mimetype md
                    = Some (if truthy vt then vt else JStr (fst (snd (base64Defaults b))))
               \<and> fileName md
                    = Some (if truthy vf then vf else JStr (snd (snd (base64Defaults b))))))
       \<and> base64Defaults b \<in> set [(''audio'', ''audio/ogg'', ''audio.ogg''),
            (''image'', ''image/jpeg'', ''image.jpg''), (''video'', ''video/mp4'', ''video.mp4''),
            (''audio'', ''audio/mpeg'', ''audio.mp3''), (''image'', ''image/png'', ''image.png'')]"
proof (intro conjI impI allI)
  assume "body \<noteq> JNull \<and> body \<noteq> JUndefined"
  then show "\<exists>md. inferMediaMetadata C body a = Inr md"
    by (simp add: infer_returns)
next
  fix md
  assume r: "inferMediaMetadata C body a = Inr md"
  have "getProp body ''media'' \<noteq> Inl TypeError"
    using r by (auto simp: infer_base64_branch [OF assms] inferFromBase64_def bindE_def)
  then have nn: "body \<noteq> JNull" "body \<noteq> JUndefined"
    by auto
  obtain vm vt vk vf where g: "getProp body ''media'' = Inr vm"
      "getProp body ''mimetype'' = Inr vt" "getProp body ''mediatype'' = Inr vk"
      "getProp body ''fileName'' = Inr vf"
    using getProp_defined [OF nn] by metis
  have "inferMediaMetadata C body a =
      Inr \<lparr>mediatype = Some (orElse vk (JStr (fst (base64Defaults b)))),
           mimetype = Some (orElse vt (JStr (fst (snd (base64Defaults b))))),
           fileName = Some (orElse vf (JStr (snd (snd (base64Defaults b))))),
           media = Some (orElse vm (JStr b))\<rparr>"
    by (simp add: infer_base64_branch [OF assms] inferFromBase64_result [OF g])
  with r g show "\<exists>vm vk vt vf.
               getProp body ''media'' = Inr vm \<and> getProp body ''mediatype'' = Inr vk
               \<and> getProp body ''mimetype'' = Inr vt \<and> getProp body ''fileName'' = Inr vf
               \<and> media md = Some (if truthy vm then vm else JStr b)
               \<and> mediatype md = Some (if truthy vk then vk else JStr (fst (base64Defaults b)))
               \<and> mimetype md
                    = Some (if truthy vt then vt else JStr (fst (snd (base64Defaults b))))
               \<and> fileName md
                    = Some (if truthy vf then vf else JStr (snd (snd (base64Defaults b))))"
    by (auto simp: orElse_def)
next
  show "base64Defaults b \<in> set [(''audio'', ''audio/ogg'', ''audio.ogg''),
            (''image'', ''image/jpeg'', ''image.jpg''), (''video'', ''video/mp4'', ''video.mp4''),
            (''audio'', ''audio/mpeg'', ''audio.mp3''), (''image'', ''image/png'', ''image.png'')]"
    by (rule base64Defaults_rules)
qed

theorem C10_witness:
  "base64BranchFires stubCollaborators
     (analyzeMessagePayload (JObj [(''file'', JStr (runOfAs 204))])) (runOfAs 204)
   \<and> JObj [(''mediatype'', JStr ''document'')] \<noteq> JNull
   \<and> JObj [(''mediatype'', JStr ''document'')] \<noteq> JUndefined
   \<and> inferMediaMetadata stubCollaborators (JObj [(''mediatype'', JStr ''document'')])
        (analyzeMessagePayload (JObj [(''file'', JStr (runOfAs 204))]))
      = Inr \<lparr>mediatype = Some (JStr ''document''), mimetype = Some (JStr ''image/png''),
             fileName = Some (JStr ''image.png''), media = Some (JStr (runOfAs 204))\<rparr>"
  using C10_base64_sets_all_four [of stubCollaborators
      "analyzeMessagePayload (JObj [(''file'', JStr (runOfAs 204))])" "runOfAs 204"
      "JObj [(''mediatype'', JStr ''document'')]"]
    stub_base64_run [of 204]
  by (auto simp: base64Defaults_def Let_def runOfAs_markers VIDEO_SIZE_THRESHOLD_def
      AUDIO_SIZE_THRESHOLD_def)

end
